theory Spec2Isabelle
  imports Main "HOL-Library.Word"
begin

section \<open>Go values shared by both packages\<close>

text \<open>
  A Go \<open>error\<close> is modelled by its message; the nil error is \<open>None\<close> of
  \<open>error option\<close>. A call that can end in a runtime panic returns an \<open>outcome\<close>:
  \<open>Panics\<close> when the goroutine panics, \<open>Returns v\<close> when it returns \<open>v\<close>.
  \<open>uint64\<close> and \<open>int64\<close> are 64-bit words; an \<open>int64\<close> is read with \<open>sint\<close>.
\<close>

type_synonym error = string
type_synonym uint64 = "64 word"
type_synonym int64 = "64 word"

datatype 'a outcome = Panics | Returns 'a

section \<open>Package bitmap: the remote backend\<close>

text \<open>
  Modelled from the spec: the remote bit-vector backend (the go-redis client and the
  server behind it) is a collaborator outside the repository. Section 6 of the
  specification describes it as batched get-bit/set-bit over a pipelined
  request/response protocol plus an expire-key operation taking a duration, addressed
  by an opaque string key.

  The server keeps, for every key that exists, the set of offsets whose bit is 1, and
  the time to live attached to a key. A bit offset is accepted when it lies in
  \<open>[0, 2^32)\<close>. The ghost counter \<open>roundtrips\<close> counts the request/response
  exchanges made with the server. I/O failure is scripted: \<open>faults\<close> lists the
  outcomes of the coming exchanges, each exchange consuming the head; an exhausted
  script means no failure. \<open>NetFail e k\<close> is a connection failure with error \<open>e\<close>
  after the server has processed the first \<open>k\<close> commands of the batch.
\<close>

datatype Cmder = GETBIT string int | SETBIT string int int | EXPIRE string int

datatype fault = NoFault | NetFail error nat

type_synonym IntCmd = "int \<times> error option"

record backend =
  bitmaps :: "string \<rightharpoonup> int set"
  ttl :: "string \<rightharpoonup> int"
  roundtrips :: nat
  faults :: "fault list"

definition valid_offset :: "int \<Rightarrow> bool" where
  "valid_offset off \<longleftrightarrow> 0 \<le> off \<and> off < 2 ^ 32"

definition ones :: "backend \<Rightarrow> string \<Rightarrow> int set" where
  "ones w k = (case bitmaps w k of None \<Rightarrow> {} | Some bs \<Rightarrow> bs)"

definition bit_at :: "backend \<Rightarrow> string \<Rightarrow> int \<Rightarrow> int" where
  "bit_at w k off = (if off \<in> ones w k then 1 else 0)"

definition ERR_offset :: error where
  "ERR_offset = ''ERR bit offset is not an integer or out of range''"

definition ERR_bit :: error where
  "ERR_bit = ''ERR bit is not an integer or out of range''"

text \<open>One command processed by the server: its reply and the server afterwards.\<close>

fun serve :: "Cmder \<Rightarrow> backend \<Rightarrow> IntCmd \<times> backend" where
  "serve (GETBIT k off) w =
     (if valid_offset off then ((bit_at w k off, None), w)
      else ((0, Some ERR_offset), w))"
| "serve (SETBIT k off v) w =
     (if \<not> valid_offset off then ((0, Some ERR_offset), w)
      else if v \<noteq> 0 \<and> v \<noteq> 1 then ((0, Some ERR_bit), w)
      else ((bit_at w k off, None),
            w\<lparr>bitmaps := (bitmaps w)(k \<mapsto>
                 (if v = 1 then insert off (ones w k) else ones w k - {off}))\<rparr>))"
| "serve (EXPIRE k d) w =
     (case bitmaps w k of
        None \<Rightarrow> ((0, None), w)
      | Some bs \<Rightarrow>
          (if d \<le> 0
           then ((1, None), w\<lparr>bitmaps := (bitmaps w)(k := None), ttl := (ttl w)(k := None)\<rparr>)
           else ((1, None), w\<lparr>ttl := (ttl w)(k \<mapsto> d)\<rparr>)))"

fun serve_all :: "Cmder list \<Rightarrow> backend \<Rightarrow> IntCmd list \<times> backend" where
  "serve_all [] w = ([], w)"
| "serve_all (c # cs) w =
     (case serve c w of (r, w1) \<Rightarrow>
        (case serve_all cs w1 of (rs, w2) \<Rightarrow> (r # rs, w2)))"

text \<open>The error of the first failed command of a batch, if any.\<close>

fun cmdsFirstErr :: "IntCmd list \<Rightarrow> error option" where
  "cmdsFirstErr [] = None"
| "cmdsFirstErr ((v, Some e) # rs) = Some e"
| "cmdsFirstErr ((v, None) # rs) = cmdsFirstErr rs"

definition next_fault :: "backend \<Rightarrow> fault" where
  "next_fault w = (case faults w of [] \<Rightarrow> NoFault | f # fs \<Rightarrow> f)"

text \<open>
  One request/response exchange carrying a batch of commands. It returns the reply of
  every command and the error of the first failed one.
\<close>

definition roundtrip :: "Cmder list \<Rightarrow> backend \<Rightarrow> (IntCmd list \<times> error option) \<times> backend" where
  "roundtrip cmds w =
     (let w0 = w\<lparr>roundtrips := Suc (roundtrips w), faults := tl (faults w)\<rparr> in
      case next_fault w of
        NoFault \<Rightarrow>
          (case serve_all cmds w0 of (rs, w1) \<Rightarrow> ((rs, cmdsFirstErr rs), w1))
      | NetFail e k \<Rightarrow>
          (case serve_all (take k cmds) w0 of (rs, w1) \<Rightarrow>
             ((map (\<lambda>c. (0, Some e)) cmds, Some e), w1)))"

text \<open>
  \<open>Pipeline.Exec\<close> of the client. In go-redis v8, the version the package imports,
  \<open>Exec\<close> starts with \<open>if len(c.cmds) == 0 { return nil, nil }\<close>: with no command
  queued it returns at once, without contacting the server. Otherwise the queue travels
  in one exchange and \<open>Exec\<close> returns the error of the first failed command.
\<close>

definition Exec :: "Cmder list \<Rightarrow> backend \<Rightarrow> (IntCmd list \<times> error option) \<times> backend" where
  "Exec cmds w = (if cmds = [] then (([], None), w) else roundtrip cmds w)"

text \<open>A command issued directly on the client, outside a pipeline: one exchange.\<close>

definition client_do :: "Cmder \<Rightarrow> backend \<Rightarrow> IntCmd \<times> backend" where
  "client_do c w =
     (case roundtrip [c] w of
        ((r # rs, err), w') \<Rightarrow> (r, w')
      | (([], err), w') \<Rightarrow> ((0, err), w'))"

section \<open>Package bitmap: the Redis bit store\<close>

text \<open>
  The struct \<open>Redis\<close> of \<open>bitmap/redis.go\<close>. Its fields \<open>ctx\<close> and \<open>client\<close> are
  the handles through which the backend is reached; the backend itself is the explicit
  state every operation takes and returns.
\<close>

record Redis =
  Redis_key :: string
  Redis_m :: uint64

type_synonym RedisOption = "Redis \<Rightarrow> backend \<Rightarrow> error option \<times> backend"

text \<open>
  \<open>CheckBits\<close>, first loop: every position is folded with \<open>loc % r.m\<close>, converted to
  \<open>int64\<close>, and a GETBIT is queued on the pipeline. The remainder by zero panics.
\<close>

fun queue_GetBit :: "Redis \<Rightarrow> uint64 list \<Rightarrow> Cmder list \<Rightarrow> Cmder list outcome" where
  "queue_GetBit r [] pl = Returns pl"
| "queue_GetBit r (loc # locs) pl =
     (if Redis_m r = 0 then Panics
      else queue_GetBit r locs (pl @ [GETBIT (Redis_key r) (sint (loc mod Redis_m r))]))"

text \<open>\<open>CheckBits\<close>, second loop over the results.\<close>

fun check_results :: "IntCmd list \<Rightarrow> bool \<times> error option" where
  "check_results [] = (True, None)"
| "check_results ((res, Some e) # vs) = (False, Some e)"
| "check_results ((res, None) # vs) = (if res = 0 then (False, None) else check_results vs)"

definition CheckBits :: "Redis \<Rightarrow> uint64 list \<Rightarrow> backend \<Rightarrow> ((bool \<times> error option) \<times> backend) outcome" where
  "CheckBits r locs w =
     (case queue_GetBit r locs [] of
        Panics \<Rightarrow> Panics
      | Returns pl \<Rightarrow>
          (case Exec pl w of
             ((results, Some e), w') \<Rightarrow> Returns ((False, Some e), w')
           | ((results, None), w') \<Rightarrow> Returns (check_results results, w')))"

text \<open>\<open>SetBits\<close>, first loop: as in \<open>CheckBits\<close>, queueing SETBIT with value 1.\<close>

fun queue_SetBit :: "Redis \<Rightarrow> uint64 list \<Rightarrow> Cmder list \<Rightarrow> Cmder list outcome" where
  "queue_SetBit r [] pl = Returns pl"
| "queue_SetBit r (loc # locs) pl =
     (if Redis_m r = 0 then Panics
      else queue_SetBit r locs (pl @ [SETBIT (Redis_key r) (sint (loc mod Redis_m r)) 1]))"

text \<open>\<open>SetBits\<close>, second loop: the first error among the results.\<close>

fun set_results :: "IntCmd list \<Rightarrow> error option" where
  "set_results [] = None"
| "set_results ((res, Some e) # vs) = Some e"
| "set_results ((res, None) # vs) = set_results vs"

definition SetBits :: "Redis \<Rightarrow> uint64 list \<Rightarrow> backend \<Rightarrow> (error option \<times> backend) outcome" where
  "SetBits r locs w =
     (case queue_SetBit r locs [] of
        Panics \<Rightarrow> Panics
      | Returns pl \<Rightarrow>
          (case Exec pl w of
             ((results, Some e), w') \<Rightarrow> Returns (Some e, w')
           | ((results, None), w') \<Rightarrow> Returns (set_results results, w')))"

text \<open>\<open>RedisSetExpireTTL d\<close>: the option that sends EXPIRE for the store's key.\<close>

definition RedisSetExpireTTL :: "int64 \<Rightarrow> RedisOption" where
  "RedisSetExpireTTL d r w =
     (case client_do (EXPIRE (Redis_key r) (sint d)) w of
        ((res, Some e), w') \<Rightarrow> (Some e, w')
      | ((res, None), w') \<Rightarrow> (None, w'))"

text \<open>
  \<open>fmt.Sprintf("%s_%d", key, n)\<close>: the decimal rendering of a signed integer. The
  digits are produced most significant first; a negative number carries a minus sign.
\<close>

definition digit_char :: "nat \<Rightarrow> char" where
  "digit_char d = ''0123456789'' ! d"

fun digits :: "nat \<Rightarrow> string" where
  "digits n = (if n < 10 then [digit_char n] else digits (n div 10) @ [digit_char (n mod 10)])"

declare digits.simps [simp del]

definition itoa :: "int \<Rightarrow> string" where
  "itoa i = (if i < 0 then CHR ''-'' # digits (nat (- i)) else digits (nat i))"

text \<open>The number that a string of decimal digits denotes: the rendering read back.\<close>

definition undigits :: "string \<Rightarrow> nat" where
  "undigits s = foldl (\<lambda>a c. 10 * a + (of_char c - 48)) 0 s"

definition gen_key :: "string \<Rightarrow> int64 \<Rightarrow> string" where
  "gen_key name unixNano = name @ ''_'' @ itoa (sint unixNano)"

text \<open>The loop of \<open>NewRedis\<close> over the options: the first failing option aborts.\<close>

fun apply_opts :: "RedisOption list \<Rightarrow> Redis \<Rightarrow> backend \<Rightarrow> (error + Redis) \<times> backend" where
  "apply_opts [] r w = (Inr r, w)"
| "apply_opts (opt # opts) r w =
     (case opt r w of
        (Some e, w') \<Rightarrow> (Inl e, w')
      | (None, w') \<Rightarrow> apply_opts opts r w')"

text \<open>
  \<open>NewRedis\<close>. The argument \<open>unixNano\<close> is the value \<open>time.Now().UnixNano()\<close> reads
  during the call. The reply of the initial SETBIT is discarded, as in the source.
\<close>

definition NewRedis :: "string \<Rightarrow> uint64 \<Rightarrow> RedisOption list \<Rightarrow> int64 \<Rightarrow> backend \<Rightarrow> (error + Redis) \<times> backend" where
  "NewRedis name m0 opts unixNano w =
     (let r = \<lparr>Redis_key = gen_key name unixNano, Redis_m = m0\<rparr> in
      case client_do (SETBIT (Redis_key r) 0 0) w of
        (res, w1) \<Rightarrow> apply_opts opts r w1)"

section \<open>Package rotator\<close>

subsection \<open>Time\<close>

text \<open>
  Go's package \<open>time\<close>, as its documentation states it. A \<open>Time\<close> is the wall-clock
  instant, counted in nanoseconds since Go's zero time; a \<open>Duration\<close> is an \<open>int64\<close>
  count of nanoseconds. \<open>Truncate\<close> rounds down to a multiple of \<open>d\<close> since the zero
  time and returns the instant unchanged when \<open>d \<le> 0\<close>; it strips the monotonic
  clock reading, so the \<open>Sub\<close> that follows it in \<open>handleRotating\<close> is the
  difference of the wall-clock instants, saturated to the range of \<open>Duration\<close>.
\<close>

type_synonym Time = int
type_synonym Duration = int64

definition Time_Add :: "Time \<Rightarrow> Duration \<Rightarrow> Time" where
  "Time_Add t d = t + sint d"

definition Truncate :: "Time \<Rightarrow> Duration \<Rightarrow> Time" where
  "Truncate t d = (if sint d \<le> 0 then t else t - t mod sint d)"

definition maxDuration :: int where
  "maxDuration = 2 ^ 63 - 1"

definition minDuration :: int where
  "minDuration = - (2 ^ 63)"

definition Time_Sub :: "Time \<Rightarrow> Time \<Rightarrow> Duration" where
  "Time_Sub t u =
     (if t - u > maxDuration then word_of_int maxDuration
      else if t - u < minDuration then word_of_int minDuration
      else word_of_int (t - u))"

subsection \<open>Filters, pairs and the Rotator\<close>

text \<open>
  \<open>filter.Filter\<close> is an interface implemented outside the repository: a filter is
  given by its two methods, each acting on the world \<open>'w\<close> the filters live in (for
  the Redis-backed filter, the backend).
\<close>

record 'w Filter =
  Filter_Add :: "string \<Rightarrow> 'w \<Rightarrow> error option \<times> 'w"
  Filter_Exist :: "string \<Rightarrow> 'w \<Rightarrow> (bool \<times> error option) \<times> 'w"

record 'w filterPair =
  current :: "'w Filter"
  next' :: "'w Filter"

text \<open>
  A \<open>*filterPair\<close>: the address of the allocated object together with its contents.
  The code never writes to a pair after allocating it, so the contents at an address
  are fixed; two references are the same object when their addresses are equal.
\<close>

type_synonym 'w filterPair_ptr = "nat \<times> 'w filterPair"

record 'mode RotatorConfig =
  Enable :: bool
  Freq :: Duration
  Mode :: 'mode

record 'mode BitmapFactoryCtxValue =
  IsRotatorEnabled :: bool
  IsNextFilter :: bool
  RotatorMode :: 'mode
  Now :: Time

text \<open>
  \<open>NewFilterFunc\<close> receives the Rotator's context extended with a
  \<open>BitmapFactoryCtxValue\<close>; the model hands it that value. It returns a filter or an
  error.
\<close>

type_synonym ('mode, 'w) NewFilterFunc =
  "'mode BitmapFactoryCtxValue \<Rightarrow> 'w \<Rightarrow> (error + 'w Filter) \<times> 'w"

text \<open>
  The struct \<open>Rotator\<close>. The field \<open>pair\<close> is an \<open>atomic.Value\<close>: it is modelled by
  the sequence of references stored into it, the latest first. \<open>Load\<close> reads the
  latest one and \<open>Store\<close> adds one, so every \<open>Store\<close> of the code is one new entry.
\<close>

record ('mode, 'w) Rotator =
  Rotator_cfg :: "'mode RotatorConfig"
  Rotator_newFilter :: "('mode, 'w) NewFilterFunc"
  Rotator_pair :: "'w filterPair_ptr list"

text \<open>
  What the program holds besides the Rotator: the world of the filters, the number of
  \<open>filterPair\<close> objects allocated so far (the next one gets this number as its
  address), and the \<open>handleRotating\<close> goroutines started so far, each by its argument.
\<close>

record 'w state =
  ext :: 'w
  allocs :: nat
  spawned :: "Duration list"

definition Load :: "('mode, 'w) Rotator \<Rightarrow> 'w filterPair_ptr option" where
  "Load r = (case Rotator_pair r of [] \<Rightarrow> None | p # ps \<Rightarrow> Some p)"

definition Store :: "'w filterPair_ptr \<Rightarrow> ('mode, 'w) Rotator \<Rightarrow> ('mode, 'w) Rotator" where
  "Store p r = r\<lparr>Rotator_pair := p # Rotator_pair r\<rparr>"

definition ctx_value :: "('mode, 'w) Rotator \<Rightarrow> bool \<Rightarrow> Time \<Rightarrow> 'mode BitmapFactoryCtxValue" where
  "ctx_value r isNext now =
     \<lparr>IsRotatorEnabled = Enable (Rotator_cfg r), IsNextFilter = isNext,
      RotatorMode = Mode (Rotator_cfg r), Now = now\<rparr>"

text \<open>\<open>genFilter\<close>; the argument \<open>now\<close> is what \<open>time.Now()\<close> reads during the call.\<close>

definition genFilter :: "('mode, 'w) Rotator \<Rightarrow> bool \<Rightarrow> Time \<Rightarrow> 'w \<Rightarrow> (error + 'w Filter) \<times> 'w" where
  "genFilter r isNext now w =
     (case Rotator_newFilter r (ctx_value r isNext now) w of
        (Inl err, w') \<Rightarrow> (Inl err, w')
      | (Inr f, w') \<Rightarrow> (Inr f, w'))"

text \<open>
  \<open>rotate\<close>. The type assertion \<open>r.pair.Load().(*filterPair)\<close> panics when nothing has
  been stored yet.
\<close>

definition rotate :: "('mode, 'w) Rotator \<Rightarrow> Time \<Rightarrow> 'w state \<Rightarrow> (error option \<times> ('mode, 'w) Rotator \<times> 'w state) outcome" where
  "rotate r now s =
     (case genFilter r True now (ext s) of
        (Inl err, w') \<Rightarrow> Returns (Some err, r, s\<lparr>ext := w'\<rparr>)
      | (Inr newF, w') \<Rightarrow>
          (case Load r of
             None \<Rightarrow> Panics
           | Some (a, oldPair) \<Rightarrow>
               (let newPair = (allocs s, \<lparr>current = next' oldPair, next' = newF\<rparr>) in
                Returns (None, Store newPair r, s\<lparr>ext := w', allocs := Suc (allocs s)\<rparr>))))"


definition Rotator_Add :: "('mode, 'w) Rotator \<Rightarrow> string \<Rightarrow> 'w \<Rightarrow> (error option \<times> 'w) outcome" where
  "Rotator_Add r data w =
     (case Load r of
        None \<Rightarrow> Panics
      | Some (a, p) \<Rightarrow>
          (case Filter_Add (current p) data w of
             (Some err, w1) \<Rightarrow> Returns (Some err, w1)
           | (None, w1) \<Rightarrow> Returns (Filter_Add (next' p) data w1)))"

text \<open>\<open>genFilterPair\<close>; \<open>now1\<close> and \<open>now2\<close> are the clock readings of its two \<open>genFilter\<close> calls.\<close>

definition genFilterPair :: "('mode, 'w) Rotator \<Rightarrow> Time \<Rightarrow> Time \<Rightarrow> 'w state \<Rightarrow> (error + 'w filterPair_ptr) \<times> 'w state" where
  "genFilterPair r now1 now2 s =
     (case genFilter r False now1 (ext s) of
        (Inl err, w1) \<Rightarrow> (Inl err, s\<lparr>ext := w1\<rparr>)
      | (Inr cur, w1) \<Rightarrow>
          (case genFilter r True now2 w1 of
             (Inl err, w2) \<Rightarrow> (Inl err, s\<lparr>ext := w2\<rparr>)
           | (Inr nxt, w2) \<Rightarrow>
               (Inr (allocs s, \<lparr>current = cur, next' = nxt\<rparr>),
                s\<lparr>ext := w2, allocs := Suc (allocs s)\<rparr>)))"

text \<open>
  \<open>NewRotator\<close>. The statement \<open>go r.handleRotating(cfg.Freq)\<close> adds a goroutine to
  \<open>spawned\<close>. \<open>Inl err\<close> is the return \<open>(nil, err)\<close>, \<open>Inr r\<close> the return \<open>(r, nil)\<close>.
\<close>

definition NewRotator :: "'mode RotatorConfig \<Rightarrow> ('mode, 'w) NewFilterFunc \<Rightarrow> Time \<Rightarrow> Time \<Rightarrow> 'w state \<Rightarrow> (error + ('mode, 'w) Rotator) \<times> 'w state" where
  "NewRotator cfg newFilter now1 now2 s =
     (let r = \<lparr>Rotator_cfg = cfg, Rotator_newFilter = newFilter, Rotator_pair = []\<rparr> in
      case genFilterPair r now1 now2 s of
        (Inl err, s1) \<Rightarrow> (Inl err, s1)
      | (Inr p, s1) \<Rightarrow> (Inr (Store p r), s1\<lparr>spawned := spawned s1 @ [Freq cfg]\<rparr>))"

text \<open>
  \<open>handleRotating\<close>. The loop runs until the context is done, so it is driven by a
  script with one entry per iteration: the reading of \<open>time.Now()\<close> at the top of the
  iteration, and the case the \<open>select\<close> takes, which is either the timer (with the
  clock reading of the \<open>rotate\<close> call it triggers) or \<open>ctx.Done()\<close>. The function returns
  the durations of the timers it armed, in order, and how it ended: \<open>Stopped\<close> after
  \<open>ctx.Done()\<close>, \<open>Waiting\<close> in the \<open>select\<close> when the script is exhausted, \<open>Crashed\<close>
  when \<open>rotate\<close> panicked. The error returned by \<open>rotate\<close> is discarded, as in the source.
\<close>

datatype wake = TimerFired Time | CtxDone

datatype loop_end = Stopped | Waiting | Crashed

definition timer_duration :: "Time \<Rightarrow> Duration \<Rightarrow> Duration" where
  "timer_duration now freq = Time_Sub (Truncate (Time_Add now freq) freq) now"

fun handleRotating :: "Duration \<Rightarrow> (Time \<times> wake) list \<Rightarrow> ('mode, 'w) Rotator \<Rightarrow> 'w state \<Rightarrow> Duration list \<times> loop_end \<times> ('mode, 'w) Rotator \<times> 'w state" where
  "handleRotating freq [] r s = ([], Waiting, r, s)"
| "handleRotating freq ((now, CtxDone) # script) r s =
     ([timer_duration now freq], Stopped, r, s)"
| "handleRotating freq ((now, TimerFired t) # script) r s =
     (case rotate r t s of
        Panics \<Rightarrow> ([timer_duration now freq], Crashed, r, s)
      | Returns (err, r', s') \<Rightarrow>
          (case handleRotating freq script r' s' of
             (timers, fin) \<Rightarrow> (timer_duration now freq # timers, fin)))"

text \<open>
  The instant \<open>t\<close> is the first multiple of the period \<open>F\<close> after \<open>now\<close>.
\<close>

definition next_boundary :: "int \<Rightarrow> Time \<Rightarrow> Time \<Rightarrow> bool" where
  "next_boundary F now t \<longleftrightarrow> now < t \<and> t \<le> now + F \<and> F dvd t"

section \<open>Scenarios\<close>

text \<open>
  Concrete stores, backends, filters and Rotators on which the properties below are
  exercised. The filters of the scenarios share a world made of a counter, which gives
  the next filter its identity, and the list of \<open>(filter, item)\<close> entries written so
  far, latest first: \<open>set_filter i\<close> is an exact set stored under identity \<open>i\<close>, and
  \<open>failing_filter e\<close> fails every call with \<open>e\<close> and writes nothing.
\<close>

definition w_init :: backend where
  "w_init = \<lparr>bitmaps = Map.empty, ttl = Map.empty, roundtrips = 0, faults = []\<rparr>"

definition store_demo :: Redis where
  "store_demo = \<lparr>Redis_key = ''seen_1'', Redis_m = 8\<rparr>"

definition store_zero :: Redis where
  "store_zero = \<lparr>Redis_key = ''seen_1'', Redis_m = 0\<rparr>"

definition w_set :: backend where
  "w_set = \<lparr>bitmaps = [''seen_1'' \<mapsto> {5, 3}], ttl = Map.empty, roundtrips = 1, faults = []\<rparr>"

definition w_one :: backend where
  "w_one = \<lparr>bitmaps = [''seen_1700000000000000000'' \<mapsto> {}], ttl = Map.empty,
            roundtrips = 1, faults = []\<rparr>"

definition w_two :: backend where
  "w_two = \<lparr>bitmaps = [''seen_1700000000000000000'' \<mapsto> {}], ttl = Map.empty,
            roundtrips = 2, faults = []\<rparr>"

type_synonym demo_world = "nat \<times> (nat \<times> string) list"

definition set_filter :: "nat \<Rightarrow> demo_world Filter" where
  "set_filter i =
     \<lparr>Filter_Add = (\<lambda>x w. (None, (fst w, (i, x) # snd w))),
      Filter_Exist = (\<lambda>x w. (((i, x) \<in> set (snd w), None), w))\<rparr>"

definition failing_filter :: "error \<Rightarrow> demo_world Filter" where
  "failing_filter e =
     \<lparr>Filter_Add = (\<lambda>x w. (Some e, w)),
      Filter_Exist = (\<lambda>x w. ((False, Some e), w))\<rparr>"

definition fresh_filter :: "(unit, demo_world) NewFilterFunc" where
  "fresh_filter val w = (Inr (set_filter (fst w)), (Suc (fst w), snd w))"

definition refused :: "(unit, demo_world) NewFilterFunc" where
  "refused val w = (Inl ''connection refused'', w)"

definition refused_next :: "(unit, demo_world) NewFilterFunc" where
  "refused_next val w = (if IsNextFilter val then refused val w else fresh_filter val w)"

definition cfg_demo :: "unit RotatorConfig" where
  "cfg_demo = \<lparr>Enable = True, Freq = 60, Mode = ()\<rparr>"

definition pair_demo :: "demo_world filterPair" where
  "pair_demo = \<lparr>current = set_filter 0, next' = set_filter 1\<rparr>"

definition rot_demo :: "(unit, demo_world) Rotator" where
  "rot_demo = \<lparr>Rotator_cfg = cfg_demo, Rotator_newFilter = fresh_filter,
               Rotator_pair = [(0, pair_demo)]\<rparr>"

definition s_init :: "demo_world state" where
  "s_init = \<lparr>ext = (0, []), allocs = 0, spawned = []\<rparr>"

definition s_demo :: "demo_world state" where
  "s_demo = \<lparr>ext = (2, []), allocs = 1, spawned = [60]\<rparr>"

definition rot_cur_fails :: "(unit, demo_world) Rotator" where
  "rot_cur_fails = rot_demo\<lparr>Rotator_pair :=
     [(0, \<lparr>current = failing_filter ''i/o timeout'', next' = set_filter 1\<rparr>)]\<rparr>"

definition rot_next_fails :: "(unit, demo_world) Rotator" where
  "rot_next_fails = rot_demo\<lparr>Rotator_pair :=
     [(0, \<lparr>current = set_filter 0, next' = failing_filter ''i/o timeout''\<rparr>)]\<rparr>"

definition rot_refused :: "(unit, demo_world) Rotator" where
  "rot_refused = rot_demo\<lparr>Rotator_newFilter := refused\<rparr>"

section \<open>Properties of the bit store\<close>

subsection \<open>The two loops that queue commands\<close>

lemma queue_GetBit_app:
  "Redis_m r \<noteq> 0 \<Longrightarrow>
   queue_GetBit r locs pl =
     Returns (pl @ map (\<lambda>loc. GETBIT (Redis_key r) (sint (loc mod Redis_m r))) locs)"
  by (induction locs arbitrary: pl) simp_all

lemma queue_SetBit_app:
  "Redis_m r \<noteq> 0 \<Longrightarrow>
   queue_SetBit r locs pl =
     Returns (pl @ map (\<lambda>loc. SETBIT (Redis_key r) (sint (loc mod Redis_m r)) 1) locs)"
  by (induction locs arbitrary: pl) simp_all

lemma queue_GetBit_zero: "Redis_m r = 0 \<Longrightarrow> locs \<noteq> [] \<Longrightarrow> queue_GetBit r locs pl = Panics"
  by (cases locs) simp_all

lemma queue_SetBit_zero: "Redis_m r = 0 \<Longrightarrow> locs \<noteq> [] \<Longrightarrow> queue_SetBit r locs pl = Panics"
  by (cases locs) simp_all

lemma CheckBits_total: "Redis_m r \<noteq> 0 \<Longrightarrow> CheckBits r locs w \<noteq> Panics"
  by (simp add: CheckBits_def queue_GetBit_app split: prod.splits option.splits)

lemma SetBits_total: "Redis_m r \<noteq> 0 \<Longrightarrow> SetBits r locs w \<noteq> Panics"
  by (simp add: SetBits_def queue_SetBit_app split: prod.splits option.splits)

text \<open>
  Claim C10. \<open>CheckBits\<close> and \<open>SetBits\<close> fold every position with \<open>loc % r.m\<close>. On a
  store with \<open>m = 0\<close> and a non-empty list of positions both panic on the remainder by
  zero; with \<open>m\<close> different from zero neither panics. \<open>NewRedis\<close> does not validate
  \<open>m\<close>: called with \<open>m = 0\<close> and no option it returns a store whose \<open>m\<close> is 0.
\<close>

theorem mod_by_zero_panics:
  "(Redis_m r = 0 \<and> locs \<noteq> [] \<longrightarrow> CheckBits r locs w = Panics \<and> SetBits r locs w = Panics)
   \<and> (Redis_m r \<noteq> 0 \<longrightarrow> CheckBits r locs w \<noteq> Panics \<and> SetBits r locs w \<noteq> Panics)
   \<and> fst (NewRedis name 0 [] t w) = Inr \<lparr>Redis_key = gen_key name t, Redis_m = 0\<rparr>"
proof (intro conjI impI)
  assume z: "Redis_m r = 0 \<and> locs \<noteq> []"
  then show "CheckBits r locs w = Panics"
    by (simp add: CheckBits_def queue_GetBit_zero)
  from z show "SetBits r locs w = Panics"
    by (simp add: SetBits_def queue_SetBit_zero)
next
  assume "Redis_m r \<noteq> 0"
  then show "CheckBits r locs w \<noteq> Panics" by (rule CheckBits_total)
next
  assume "Redis_m r \<noteq> 0"
  then show "SetBits r locs w \<noteq> Panics" by (rule SetBits_total)
next
  show "fst (NewRedis name 0 [] t w) = Inr \<lparr>Redis_key = gen_key name t, Redis_m = 0\<rparr>"
    by (simp add: NewRedis_def split: prod.splits)
qed

theorem mod_by_zero_panics_witness:
  "Redis_m store_zero = 0 \<and> [5 :: uint64] \<noteq> []
   \<and> CheckBits store_zero [5] w_init = Panics \<and> SetBits store_zero [5] w_init = Panics
   \<and> Redis_m store_demo \<noteq> 0
   \<and> CheckBits store_demo [5] w_init \<noteq> Panics \<and> SetBits store_demo [5] w_init \<noteq> Panics
   \<and> fst (NewRedis ''seen'' 0 [] 1 w_init) = Inr store_zero"
proof -
  have k: "gen_key ''seen'' 1 = ''seen_1''"
    by (simp add: gen_key_def itoa_def digits.simps digit_char_def)
  from mod_by_zero_panics [of store_zero "[5]" w_init "''seen''" 1]
    mod_by_zero_panics [of store_demo "[5]" w_init "''seen''" 1]
  show ?thesis by (simp add: store_zero_def store_demo_def k)
qed

text \<open>
  Claim C8. \<open>CheckBits\<close> on the empty list of positions returns \<open>(true, nil)\<close> and
  leaves the backend as it was; in particular the count of exchanges with the server
  has not moved, so no I/O took place.
\<close>

theorem CheckBits_empty: "CheckBits r [] w = Returns ((True, None), w)"
  by (simp add: CheckBits_def Exec_def)

theorem CheckBits_empty_witness:
  "CheckBits store_zero [] w_init = Returns ((True, None), w_init) \<and> roundtrips w_init = 0"
  using CheckBits_empty [of store_zero w_init] by (simp add: w_init_def)

subsection \<open>Bits set are bits read\<close>

lemma serve_SETBIT_one:
  "serve (SETBIT k off 1) w = ((res, None), w') \<Longrightarrow>
     valid_offset off \<and> ones w' k = insert off (ones w k) \<and>
     faults w' = faults w \<and> roundtrips w' = roundtrips w"
  by (auto simp: ones_def split: if_splits)

lemma serve_all_SETBIT:
  "serve_all (map (\<lambda>off. SETBIT k off 1) offs) w = (rs, w') \<Longrightarrow> cmdsFirstErr rs = None \<Longrightarrow>
     (\<forall>off \<in> set offs. valid_offset off) \<and> ones w' k = ones w k \<union> set offs \<and>
     faults w' = faults w \<and> roundtrips w' = roundtrips w"
proof (induction offs arbitrary: w rs w')
  case Nil
  then show ?case by simp
next
  case (Cons a offs)
  obtain r1 w1 where s1: "serve (SETBIT k a 1) w = (r1, w1)" by force
  obtain rs2 w2 where s2: "serve_all (map (\<lambda>off. SETBIT k off 1) offs) w1 = (rs2, w2)" by force
  from Cons.prems s1 s2 have rs: "rs = r1 # rs2" and w': "w' = w2" by auto
  obtain v1 e1 where r1: "r1 = (v1, e1)" by force
  from Cons.prems(2) rs r1 have e1: "e1 = None" and ok2: "cmdsFirstErr rs2 = None"
    by (cases e1; simp)+
  from serve_SETBIT_one s1 r1 e1 have h1: "valid_offset a" "ones w1 k = insert a (ones w k)"
     "faults w1 = faults w" "roundtrips w1 = roundtrips w" by blast+
  from Cons.IH[OF s2 ok2] h1 w' show ?case by auto
qed

lemma serve_all_GETBIT:
  "\<forall>off \<in> set offs. valid_offset off \<and> off \<in> ones w k \<Longrightarrow>
   serve_all (map (\<lambda>off. GETBIT k off) offs) w = (map (\<lambda>off. (1, None)) offs, w)"
  by (induction offs) (simp_all add: bit_at_def)

lemma check_results_ones: "check_results (map (\<lambda>off. (1, None)) offs) = (True, None)"
  by (induction offs) simp_all

lemma cmdsFirstErr_ones: "cmdsFirstErr (map (\<lambda>off. (1, None)) offs) = None"
  by (induction offs) simp_all

lemma SetBits_demo: "SetBits store_demo [3, 13] w_init = Returns (None, w_set)"
  by (simp add: SetBits_def store_demo_def w_init_def w_set_def Exec_def roundtrip_def
      next_fault_def valid_offset_def bit_at_def ones_def)

text \<open>
  Claim C4. For every non-empty list of positions \<open>P\<close>: when \<open>SetBits P\<close> returns no
  error, a \<open>CheckBits P\<close> that follows at once on the same store, and whose exchange
  with the server does not fail, returns \<open>(true, nil)\<close>.
\<close>

theorem SetBits_then_CheckBits:
  assumes set: "SetBits r P w = Returns (None, w')"
    and ne: "P \<noteq> []"
    and io: "next_fault w' = NoFault"
  shows "CheckBits r P w' =
           Returns ((True, None), w'\<lparr>roundtrips := Suc (roundtrips w'), faults := tl (faults w')\<rparr>)"
proof -
  let ?k = "Redis_key r"
  let ?offs = "map (\<lambda>loc. sint (loc mod Redis_m r)) P"
  have m: "Redis_m r \<noteq> 0"
    using set ne queue_SetBit_zero [of r P "[]"] by (auto simp: SetBits_def)
  have qs: "queue_SetBit r P [] = Returns (map (\<lambda>off. SETBIT ?k off 1) ?offs)"
    using m by (simp add: queue_SetBit_app comp_def)
  have qg: "queue_GetBit r P [] = Returns (map (\<lambda>off. GETBIT ?k off) ?offs)"
    using m by (simp add: queue_GetBit_app comp_def)
  let ?w0 = "w\<lparr>roundtrips := Suc (roundtrips w), faults := tl (faults w)\<rparr>"
  obtain rs w1 where sv: "serve_all (map (\<lambda>off. SETBIT ?k off 1) ?offs) ?w0 = (rs, w1)"
    by force
  have nf: "next_fault w = NoFault"
    using set qs ne by (cases "next_fault w") (auto simp: SetBits_def Exec_def roundtrip_def split: prod.splits)
  have ex: "Exec (map (\<lambda>off. SETBIT ?k off 1) ?offs) w = ((rs, cmdsFirstErr rs), w1)"
    using ne nf sv by (simp add: Exec_def roundtrip_def)
  have ok: "cmdsFirstErr rs = None" and w1: "w1 = w'"
    using set qs ex by (auto simp: SetBits_def split: option.splits)
  from serve_all_SETBIT [OF sv ok] w1
  have bits: "\<forall>off \<in> set ?offs. valid_offset off \<and> off \<in> ones w' ?k"
    by auto
  let ?w2 = "w'\<lparr>roundtrips := Suc (roundtrips w'), faults := tl (faults w')\<rparr>"
  have "\<forall>off \<in> set ?offs. valid_offset off \<and> off \<in> ones ?w2 ?k"
    using bits by (simp add: ones_def)
  from serve_all_GETBIT [OF this]
  have "Exec (map (\<lambda>off. GETBIT ?k off) ?offs) w' = ((map (\<lambda>off. (1, None)) ?offs, None), ?w2)"
    using ne io by (simp add: Exec_def roundtrip_def cmdsFirstErr_ones del: map_map)
  then show ?thesis
    using qg by (simp add: CheckBits_def check_results_ones del: map_map)
qed

theorem SetBits_then_CheckBits_witness:
  "SetBits store_demo [3, 13] w_init = Returns (None, w_set) \<and> [3, 13 :: uint64] \<noteq> [] \<and>
   next_fault w_set = NoFault \<and>
   CheckBits store_demo [3, 13] w_set = Returns ((True, None), w_set\<lparr>roundtrips := 2, faults := []\<rparr>)"
proof -
  have nf: "next_fault w_set = NoFault" by (simp add: next_fault_def w_set_def)
  have ne: "[3, 13 :: uint64] \<noteq> []" by simp
  from SetBits_then_CheckBits [OF SetBits_demo ne nf] 
  show ?thesis using SetBits_demo nf by (simp add: w_set_def)
qed

subsection \<open>Generated keys\<close>

lemma digit_char_code: "d < 10 \<Longrightarrow> of_char (digit_char d) = (48 + d :: nat)"
proof -
  assume "d < 10"
  then have "d = 0 \<or> d = 1 \<or> d = 2 \<or> d = 3 \<or> d = 4 \<or> d = 5 \<or> d = 6
    \<or> d = 7 \<or> d = 8 \<or> d = 9" by arith
  then show ?thesis by (elim disjE) (simp_all add: digit_char_def)
qed

lemma undigits_digits: "undigits (digits n) = n"
proof (induction n rule: digits.induct)
  case (1 n)
  show ?case
  proof (cases "n < 10")
    case True
    then show ?thesis
      by (subst digits.simps) (simp add: undigits_def digit_char_code)
  next
    case False
    with 1 have "undigits (digits (n div 10)) = n div 10" by simp
    with False show ?thesis
      by (subst digits.simps) (simp add: undigits_def digit_char_code)
  qed
qed

lemma digits_inj: "digits a = digits b \<Longrightarrow> a = b"
  by (metis undigits_digits)

lemma digit_char_not_minus: "d < 10 \<Longrightarrow> digit_char d \<noteq> CHR ''-''"
proof
  assume "d < 10" and "digit_char d = CHR ''-''"
  then have "(48 + d :: nat) = of_char (CHR ''-'')" using digit_char_code by metis
  then show False by simp
qed

lemma digits_no_minus: "CHR ''-'' \<notin> set (digits n)"
proof (induction n rule: digits.induct)
  case (1 n)
  show ?case
  proof (cases "n < 10")
    case True
    then show ?thesis
      using digit_char_not_minus [of n] by (subst digits.simps) auto
  next
    case False
    with 1 have "CHR ''-'' \<notin> set (digits (n div 10))" by simp
    moreover have "digit_char (n mod 10) \<noteq> CHR ''-''" by (rule digit_char_not_minus) simp
    ultimately show ?thesis using False
      by (subst digits.simps) auto
  qed
qed

lemma itoa_inj: "itoa i = itoa j \<Longrightarrow> i = j"
proof -
  assume eq: "itoa i = itoa j"
  consider "i < 0" "j < 0" | "i < 0" "0 \<le> j" | "0 \<le> i" "j < 0" | "0 \<le> i" "0 \<le> j"
    by linarith
  then show ?thesis
  proof cases
    case 1
    with eq have "nat (- i) = nat (- j)" by (simp add: itoa_def digits_inj)
    with 1 show ?thesis by simp
  next
    case 2
    with eq have "CHR ''-'' # digits (nat (- i)) = digits (nat j)"
      by (simp add: itoa_def)
    then have "CHR ''-'' \<in> set (digits (nat j))"
      by (metis list.set_intros(1))
    then show ?thesis using digits_no_minus by blast
  next
    case 3
    with eq have "digits (nat i) = CHR ''-'' # digits (nat (- j))"
      by (simp add: itoa_def)
    then have "CHR ''-'' \<in> set (digits (nat i))"
      by simp
    then show ?thesis using digits_no_minus by blast
  next
    case 4
    with eq have "nat i = nat j" by (simp add: itoa_def digits_inj)
    with 4 show ?thesis by simp
  qed
qed

lemma gen_key_inj: "gen_key name a = gen_key name b \<Longrightarrow> a = b"
  by (simp add: gen_key_def) (metis itoa_inj signed_word_eqI)

lemma apply_opts_Inr: "apply_opts opts r w = (Inr r', w') \<Longrightarrow> r' = r"
  by (induction opts arbitrary: w) (auto split: prod.splits option.splits)

lemma NewRedis_key: "NewRedis name m0 opts t w = (Inr r, w') \<Longrightarrow> Redis_key r = gen_key name t \<and> Redis_m r = m0"
  by (auto simp: NewRedis_def Let_def split: prod.splits dest: apply_opts_Inr)

lemma NewRedis_no_opts:
  "NewRedis name m0 [] t w =
     (Inr \<lparr>Redis_key = gen_key name t, Redis_m = m0\<rparr>, snd (NewRedis name m0 [] t w))"
  by (simp add: NewRedis_def split: prod.splits)

text \<open>
  Claim C7, amended. The generated key is the logical name, an underscore and the
  decimal rendering of the clock reading \<open>time.Now().UnixNano()\<close> taken by the
  construction. Two stores built from the same logical name therefore receive the same
  key exactly when their constructions read the same clock value: the keys are distinct
  whenever the two readings differ, and only then.
\<close>

theorem NewRedis_keys_distinct:
  assumes "NewRedis name m1 opts1 t1 w1 = (Inr r1, w1')"
    and "NewRedis name m2 opts2 t2 w2 = (Inr r2, w2')"
  shows "Redis_key r1 = Redis_key r2 \<longleftrightarrow> t1 = t2"
  using NewRedis_key [OF assms(1)] NewRedis_key [OF assms(2)] gen_key_inj by auto

theorem NewRedis_keys_distinct_witness:
  "fst (NewRedis ''seen'' 1024 [] 5 w_init) = Inr \<lparr>Redis_key = ''seen_5'', Redis_m = 1024\<rparr>
   \<and> fst (NewRedis ''seen'' 1024 [] 6 w_init) = Inr \<lparr>Redis_key = ''seen_6'', Redis_m = 1024\<rparr>
   \<and> (5 :: int64) \<noteq> 6 \<and> ''seen_5'' \<noteq> ''seen_6''"
proof -
  have k5: "gen_key ''seen'' 5 = ''seen_5''" and k6: "gen_key ''seen'' 6 = ''seen_6''"
    by (simp_all add: gen_key_def itoa_def digits.simps digit_char_def)
  note h5 = NewRedis_no_opts [of "''seen''" 1024 5 w_init]
  note h6 = NewRedis_no_opts [of "''seen''" 1024 6 w_init]
  from NewRedis_keys_distinct [OF h5 h6] h5 h6
  show ?thesis by (simp add: k5 k6 prod_eq_iff)
qed

lemma itoa_stamp: "itoa 1700000000000000000 = ''1700000000000000000''"
  by (simp add: itoa_def digits.simps digit_char_def)

text \<open>
  Two constructions from the same logical name, back to back on the same backend, that
  read the same clock value receive the same key.
\<close>

theorem NewRedis_same_instant_counterexample:
  "NewRedis ''seen'' 1024 [] 1700000000000000000 w_init =
     (Inr \<lparr>Redis_key = ''seen_1700000000000000000'', Redis_m = 1024\<rparr>, w_one)
   \<and> NewRedis ''seen'' 1024 [] 1700000000000000000 w_one =
     (Inr \<lparr>Redis_key = ''seen_1700000000000000000'', Redis_m = 1024\<rparr>, w_two)"
  by (simp add: NewRedis_def gen_key_def itoa_stamp client_do_def roundtrip_def next_fault_def
      w_init_def w_one_def w_two_def valid_offset_def bit_at_def ones_def)

section \<open>Properties of the Rotator\<close>

lemma NewRotator_demo: "NewRotator cfg_demo fresh_filter 0 0 s_init = (Inr rot_demo, s_demo)"
  by (simp add: NewRotator_def genFilterPair_def genFilter_def fresh_filter_def rot_demo_def
      s_demo_def s_init_def Store_def pair_demo_def cfg_demo_def)

lemma Load_demo: "Load rot_demo = Some (0, pair_demo)"
  by (simp add: Load_def rot_demo_def)

text \<open>
  Claim C1. \<open>Rotator.Add\<close> calls \<open>Add\<close> on the current filter of the loaded pair
  first. When that call fails, its error is returned together with the world exactly as
  that call left it, whatever the next filter is: \<open>Add\<close> on the next filter is not
  called. When it succeeds, \<open>Add\<close> is called on the next filter in the world the first
  call produced, and the result of that second call is returned, error or not; the
  writes of the current filter stay in place when the second call fails.
\<close>

theorem Rotator_Add_delegates:
  assumes "Load r = Some (a, p)"
  shows "(\<forall>e w1. Filter_Add (current p) data w = (Some e, w1) \<longrightarrow>
            Rotator_Add r data w = Returns (Some e, w1))
       \<and> (\<forall>e w1 n. Filter_Add (current p) data w = (Some e, w1) \<longrightarrow>
            Rotator_Add (r\<lparr>Rotator_pair := (a, p\<lparr>next' := n\<rparr>) # tl (Rotator_pair r)\<rparr>) data w =
              Returns (Some e, w1))
       \<and> (\<forall>w1. Filter_Add (current p) data w = (None, w1) \<longrightarrow>
            Rotator_Add r data w = Returns (Filter_Add (next' p) data w1))"
  using assms by (simp add: Rotator_Add_def Load_def)

theorem Rotator_Add_delegates_witness:
  "Load rot_cur_fails = Some (0, \<lparr>current = failing_filter ''i/o timeout'', next' = set_filter 1\<rparr>)
   \<and> Filter_Add (failing_filter ''i/o timeout'') ''x'' (2, []) = (Some ''i/o timeout'', (2, []))
   \<and> Rotator_Add rot_cur_fails ''x'' (2, []) = Returns (Some ''i/o timeout'', (2, []))
   \<and> Load rot_next_fails = Some (0, \<lparr>current = set_filter 0, next' = failing_filter ''i/o timeout''\<rparr>)
   \<and> Filter_Add (set_filter 0) ''x'' (2, []) = (None, (2, [(0, ''x'')]))
   \<and> Rotator_Add rot_next_fails ''x'' (2, []) = Returns (Some ''i/o timeout'', (2, [(0, ''x'')]))"
proof -
  have l1: "Load rot_cur_fails = Some (0, \<lparr>current = failing_filter ''i/o timeout'', next' = set_filter 1\<rparr>)"
    by (simp add: Load_def rot_cur_fails_def)
  have l2: "Load rot_next_fails = Some (0, \<lparr>current = set_filter 0, next' = failing_filter ''i/o timeout''\<rparr>)"
    by (simp add: Load_def rot_next_fails_def)
  have a1: "Filter_Add (failing_filter ''i/o timeout'') ''x'' (2, []) = (Some ''i/o timeout'', (2, []))"
    by (simp add: failing_filter_def)
  have a2: "Filter_Add (set_filter 0) ''x'' (2, []) = (None, (2, [(0, ''x'')]))"
    by (simp add: set_filter_def)
  from Rotator_Add_delegates [OF l1, of "''x''" "(2, [])"] a1
  have r1: "Rotator_Add rot_cur_fails ''x'' (2, []) = Returns (Some ''i/o timeout'', (2, []))"
    by simp
  from Rotator_Add_delegates [OF l2, of "''x''" "(2, [])"] a2
  have r2: "Rotator_Add rot_next_fails ''x'' (2, []) = Returns (Some ''i/o timeout'', (2, [(0, ''x'')]))"
    by (simp add: failing_filter_def)
  from l1 l2 a1 a2 r1 r2 show ?thesis by simp
qed

text \<open>
  Claim C2. When the construction of the new filter succeeds, \<open>rotate\<close> makes one
  \<open>Store\<close>: the reference stored is a newly allocated pair whose current filter is the
  next filter of the pair loaded before and whose next filter is the new filter. The
  stored sequence grows by that one entry, and \<open>Load\<close> returns it afterwards.
\<close>

theorem rotate_success_swaps:
  assumes "Rotator_newFilter r (ctx_value r True now) (ext s) = (Inr f, w')"
    and "Load r = Some (a, old)"
  shows "rotate r now s =
           Returns (None, Store (allocs s, \<lparr>current = next' old, next' = f\<rparr>) r,
                    s\<lparr>ext := w', allocs := Suc (allocs s)\<rparr>)
       \<and> Load (Store (allocs s, \<lparr>current = next' old, next' = f\<rparr>) r) =
           Some (allocs s, \<lparr>current = next' old, next' = f\<rparr>)
       \<and> Rotator_pair (Store (allocs s, \<lparr>current = next' old, next' = f\<rparr>) r) =
           (allocs s, \<lparr>current = next' old, next' = f\<rparr>) # Rotator_pair r"
  using assms by (simp add: rotate_def genFilter_def Load_def Store_def)

theorem rotate_success_swaps_witness:
  "Rotator_newFilter rot_demo (ctx_value rot_demo True 5) (ext s_demo) = (Inr (set_filter 2), (3, []))
   \<and> Load rot_demo = Some (0, pair_demo)
   \<and> rotate rot_demo 5 s_demo =
       Returns (None, rot_demo\<lparr>Rotator_pair := [(1, \<lparr>current = set_filter 1, next' = set_filter 2\<rparr>), (0, pair_demo)]\<rparr>,
                s_demo\<lparr>ext := (3, []), allocs := 2\<rparr>)"
proof -
  have nf: "Rotator_newFilter rot_demo (ctx_value rot_demo True 5) (ext s_demo) = (Inr (set_filter 2), (3, []))"
    by (simp add: rot_demo_def fresh_filter_def s_demo_def)
  from rotate_success_swaps [OF nf Load_demo] nf Load_demo
  show ?thesis by (simp add: Store_def s_demo_def pair_demo_def rot_demo_def)
qed

lemma timer_7_60: "timer_duration 7 60 = 53"
  by (simp add: timer_duration_def Time_Sub_def Truncate_def Time_Add_def maxDuration_def minDuration_def)

lemma timer_61_60: "timer_duration 61 60 = 59"
  by (simp add: timer_duration_def Time_Sub_def Truncate_def Time_Add_def maxDuration_def minDuration_def)

text \<open>
  Claim C3. When the construction of the new filter fails during a rotation, \<open>rotate\<close>
  returns the error and the Rotator it was given: nothing is stored, so the visible pair
  is the same reference as before. \<open>handleRotating\<close> discards the error and goes on
  with the rest of its iterations on that unchanged Rotator, arming the timer of the
  next iteration.
\<close>

theorem rotate_failure_keeps_pair:
  assumes "Rotator_newFilter r (ctx_value r True now) (ext s) = (Inl err, w')"
  shows "rotate r now s = Returns (Some err, r, s\<lparr>ext := w'\<rparr>)
       \<and> handleRotating freq ((t0, TimerFired now) # script) r s =
           (timer_duration t0 freq # fst (handleRotating freq script r (s\<lparr>ext := w'\<rparr>)),
            snd (handleRotating freq script r (s\<lparr>ext := w'\<rparr>)))"
  using assms by (simp add: rotate_def genFilter_def split: prod.splits)

theorem rotate_failure_keeps_pair_witness:
  "Rotator_newFilter rot_refused (ctx_value rot_refused True 60) (ext s_demo) = (Inl ''connection refused'', (2, []))
   \<and> rotate rot_refused 60 s_demo = Returns (Some ''connection refused'', rot_refused, s_demo)
   \<and> handleRotating 60 [(7, TimerFired 60), (61, CtxDone)] rot_refused s_demo =
        ([53, 59], Stopped, rot_refused, s_demo)"
proof -
  have nf: "Rotator_newFilter rot_refused (ctx_value rot_refused True 60) (ext s_demo) = (Inl ''connection refused'', (2, []))"
    by (simp add: rot_refused_def refused_def s_demo_def)
  have s: "s_demo\<lparr>ext := (2, [])\<rparr> = s_demo" by (simp add: s_demo_def)
  from rotate_failure_keeps_pair [OF nf, of 60 7 "[(61, CtxDone)]"] nf
  show ?thesis by (simp add: s timer_7_60 timer_61_60)
qed

text \<open>
  Claim C9. When building the initial pair fails, \<open>NewRotator\<close> returns the error and
  no Rotator, and the goroutines started are those started before: \<open>handleRotating\<close> is
  not started.
\<close>

theorem NewRotator_fails:
  assumes "genFilterPair \<lparr>Rotator_cfg = cfg, Rotator_newFilter = newFilter, Rotator_pair = []\<rparr>
             now1 now2 s = (Inl err, s1)"
  shows "NewRotator cfg newFilter now1 now2 s = (Inl err, s1) \<and> spawned s1 = spawned s"
  using assms
  by (auto simp: NewRotator_def genFilterPair_def split: prod.splits sum.splits)

theorem NewRotator_fails_witness:
  "genFilterPair \<lparr>Rotator_cfg = cfg_demo, Rotator_newFilter = refused_next, Rotator_pair = []\<rparr> 0 0 s_init
     = (Inl ''connection refused'', s_init\<lparr>ext := (1, [])\<rparr>)
   \<and> NewRotator cfg_demo refused_next 0 0 s_init = (Inl ''connection refused'', s_init\<lparr>ext := (1, [])\<rparr>)
   \<and> spawned (s_init\<lparr>ext := (1, [])\<rparr>) = []"
proof -
  have g: "genFilterPair \<lparr>Rotator_cfg = cfg_demo, Rotator_newFilter = refused_next, Rotator_pair = []\<rparr> 0 0 s_init
     = (Inl ''connection refused'', s_init\<lparr>ext := (1, [])\<rparr>)"
    by (simp add: genFilterPair_def genFilter_def refused_next_def refused_def fresh_filter_def
        ctx_value_def s_init_def)
  from NewRotator_fails [OF g] g show ?thesis by (simp add: s_init_def)
qed



subsection \<open>The timer of the rotation loop\<close>

lemma sint_in_range:
  fixes x :: int
  assumes "- (2 ^ 63) \<le> x" "x < 2 ^ 63"
  shows "sint (word_of_int x :: 64 word) = x"
  using assms by (simp add: sint_sbintrunc' signed_take_bit_int_eq_self)

lemma timer_duration_pos:
  assumes "0 < sint F"
  shows "sint (timer_duration now F) = sint F - now mod sint F"
proof -
  let ?F = "sint F"
  have lt: "?F < 2 ^ 63" using sint_lt [of F] by simp
  have m: "0 \<le> now mod ?F" "now mod ?F < ?F" using assms by simp_all
  have tr: "Truncate (Time_Add now F) F - now = ?F - now mod ?F"
    using assms by (simp add: Truncate_def Time_Add_def)
  have td: "timer_duration now F = word_of_int (?F - now mod ?F)"
    unfolding timer_duration_def Time_Sub_def tr using m lt
    by (simp add: maxDuration_def minDuration_def)
  have "- (2 ^ 63) \<le> ?F - now mod ?F" and "?F - now mod ?F < 2 ^ 63"
    using m lt by linarith+
  then show ?thesis unfolding td by (rule sint_in_range)
qed

lemma first_boundary:
  assumes "0 < sint F"
  shows "next_boundary (sint F) now (now + sint (timer_duration now F))"
  unfolding timer_duration_pos [OF assms] next_boundary_def
proof (intro conjI)
  let ?F = "sint F"
  have m: "0 \<le> now mod ?F" "now mod ?F < ?F" using assms by simp_all
  show "now < now + (?F - now mod ?F)" using m by simp
  show "now + (?F - now mod ?F) \<le> now + ?F" using m by simp
  have "now + (?F - now mod ?F) = ?F * (now div ?F + 1)"
    by (simp add: algebra_simps minus_mod_eq_mult_div)
  then show "?F dvd now + (?F - now mod ?F)" by simp
qed

lemma next_boundary_least:
  assumes "0 < F" "next_boundary F now t" "now < u" "F dvd u"
  shows "t \<le> u"
proof (rule ccontr)
  assume "\<not> t \<le> u"
  then have "u < t" by simp
  from assms(2) have t: "now < t" "t \<le> now + F" "F dvd t" by (simp_all add: next_boundary_def)
  from t(3) assms(4) have "F dvd t - u" by simp
  moreover have "0 < t - u" "t - u < F" using \<open>u < t\<close> t(2) assms(3) by simp_all
  ultimately show False using zdvd_not_zless by blast
qed

text \<open>
  Claim C6, amended. For every instant \<open>now\<close> and every positive frequency \<open>F\<close>, the
  first iteration of \<open>handleRotating\<close> arms its timer for \<open>F - now mod F\<close>, which is
  \<open>now + F\<close> truncated down to a multiple of \<open>F\<close>, minus \<open>now\<close>. The timer thus runs
  out at the first multiple of \<open>F\<close> after \<open>now\<close>: no multiple of \<open>F\<close> later than
  \<open>now\<close> comes before it.
\<close>

theorem timer_fires_at_next_boundary:
  assumes "0 < sint F"
  shows "take 1 (fst (handleRotating F ((now, ev) # script) r s)) = [timer_duration now F]
       \<and> sint (timer_duration now F) = sint F - now mod sint F
       \<and> next_boundary (sint F) now (now + sint (timer_duration now F))
       \<and> (\<forall>u. now < u \<and> sint F dvd u \<longrightarrow> now + sint (timer_duration now F) \<le> u)"
proof -
  have "take 1 (fst (handleRotating F ((now, ev) # script) r s)) = [timer_duration now F]"
    by (cases ev) (auto split: outcome.splits prod.splits)
  moreover note timer_duration_pos [OF assms] first_boundary [OF assms, of now]
  moreover have "\<forall>u. now < u \<and> sint F dvd u \<longrightarrow> now + sint (timer_duration now F) \<le> u"
    using next_boundary_least [OF assms first_boundary [OF assms, of now]] by blast
  ultimately show ?thesis by blast
qed

theorem timer_fires_at_next_boundary_witness:
  "0 < sint (60 :: Duration)
   \<and> take 1 (fst (handleRotating 60 [(7, CtxDone)] rot_demo s_demo)) = [53]
   \<and> sint (53 :: Duration) = 60 - 7 mod 60
   \<and> next_boundary 60 7 60
   \<and> (7 :: int) < 120 \<and> (60 :: int) dvd 120 \<and> (60 :: int) \<le> 120"
proof -
  have p: "0 < sint (60 :: Duration)" by simp
  from timer_fires_at_next_boundary [OF p, of 7 CtxDone "[]" rot_demo s_demo]
  show ?thesis by (simp add: timer_7_60)
qed

text \<open>
  With the frequency 0 the timer is armed for the duration 0: it runs out at \<open>now\<close>
  itself, which is not a boundary after \<open>now\<close>.
\<close>

theorem timer_nonpositive_frequency_counterexample:
  "take 1 (fst (handleRotating 0 [(7, CtxDone)] rot_demo s_demo)) = [0]
   \<and> \<not> next_boundary (sint (0 :: Duration)) 7 (7 + sint (timer_duration 7 0))"
  by (simp add: timer_duration_def Time_Sub_def Truncate_def Time_Add_def maxDuration_def
      minDuration_def next_boundary_def)

end
